theory Spec2Isabelle
  imports Complex_Main
begin

section \<open>Incremental PCA reconstruction: the generator \<open>data_reconstruction\<close>\<close>

text \<open>
  The notebook defines one function of its own:
  \<^verbatim>\<open>
  def data_reconstruction(data,principal_components,by_n=1):
      n,c=data.shape
      C,N=principal_components.shape
      M=c//by_n
      assert C==c
      L=np.empty((n,N))
      m=0
      while m+by_n<c:
          iteration=m
          A=data[:,m:m+by_n]
          B=principal_components[m:m+by_n,:]
          L+=np.dot(data[:,m:m+by_n],principal_components[m:m+by_n,:])
          m+=by_n
          yield L,iteration
      yield L+np.dot(data[:,m:c],principal_components[m:c,:]),m
  \<close>
  It is a Python generator function: the call builds a generator object and runs nothing
  of the body; each \<open>next\<close> runs the body up to the following \<open>yield\<close>. The model below
  is a step function on the generator object and an explicit store of arrays, since the
  loop yields the array \<open>L\<close> itself and then updates it in place.

  Array entries are real numbers: arithmetic is exact, rounding of floating point is not
  modelled.
\<close>

subsection \<open>Two-dimensional arrays\<close>

record ndarray =
  nrows :: nat
  ncols :: nat
  elem :: "nat \<Rightarrow> nat \<Rightarrow> real"

text \<open>An array written out row by row, and back (\<open>np.array\<close> and \<open>tolist\<close>).\<close>

definition of_rows :: "real list list \<Rightarrow> ndarray" where
  "of_rows rs =
     \<lparr>nrows = length rs,
      ncols = (case rs of [] \<Rightarrow> 0 | r # _ \<Rightarrow> length r),
      elem = (\<lambda>i j. rs ! i ! j)\<rparr>"

definition to_lists :: "ndarray \<Rightarrow> real list list" where
  "to_lists X = map (\<lambda>i. map (\<lambda>j. elem X i j) [0..<ncols X]) [0..<nrows X]"

datatype error = ZeroDivisionError | AssertionError | ValueError

text \<open>Floor division \<open>a // b\<close> on Python integers.\<close>

definition py_floordiv :: "int \<Rightarrow> int \<Rightarrow> error + int" where
  "py_floordiv a b = (if b = 0 then Inl ZeroDivisionError else Inr (a div b))"

text \<open>
  One bound of a slice \<open>a:b\<close> on an axis of length \<open>len\<close>: a negative bound counts from
  the end, and the result is clipped to \<open>[0, len]\<close>. The slice holds the positions from
  the first bound up to the second, none when the second is not larger.
\<close>

definition slice_index :: "int \<Rightarrow> nat \<Rightarrow> nat" where
  "slice_index i len =
     (if i < 0 then (if i + int len < 0 then 0 else nat (i + int len))
      else if int len < i then len else nat i)"

text \<open>\<open>X[:, a:b]\<close> and \<open>X[a:b, :]\<close>.\<close>

definition cols :: "ndarray \<Rightarrow> int \<Rightarrow> int \<Rightarrow> ndarray" where
  "cols X a b =
     (let lo = slice_index a (ncols X); hi = slice_index b (ncols X) in
      \<lparr>nrows = nrows X, ncols = hi - lo, elem = (\<lambda>i j. elem X i (lo + j))\<rparr>)"

definition rows :: "ndarray \<Rightarrow> int \<Rightarrow> int \<Rightarrow> ndarray" where
  "rows X a b =
     (let lo = slice_index a (nrows X); hi = slice_index b (nrows X) in
      \<lparr>nrows = hi - lo, ncols = ncols X, elem = (\<lambda>i j. elem X (lo + i) j)\<rparr>)"

text \<open>
  \<open>np.dot\<close> of two 2-D arrays: the matrix product, a \<open>ValueError\<close> when the inner
  dimensions differ. A product over an empty inner dimension is the zero matrix.
\<close>

definition np_dot :: "ndarray \<Rightarrow> ndarray \<Rightarrow> error + ndarray" where
  "np_dot X Y =
     (if ncols X \<noteq> nrows Y then Inl ValueError
      else Inr \<lparr>nrows = nrows X, ncols = ncols Y,
                elem = (\<lambda>i j. sum_list (map (\<lambda>k. elem X i k * elem Y k j) [0..<ncols X]))\<rparr>)"

text \<open>
  Entrywise sum. In \<open>data_reconstruction\<close> both operands always have the shape \<open>(n, N)\<close>
  (the accumulator is allocated with it and \<open>np.dot\<close> returns it), so no broadcasting
  takes place.
\<close>

definition np_add :: "ndarray \<Rightarrow> ndarray \<Rightarrow> ndarray" where
  "np_add X Y = \<lparr>nrows = nrows X, ncols = ncols X, elem = (\<lambda>i j. elem X i j + elem Y i j)\<rparr>"

text \<open>
  \<open>np.empty((n, N))\<close> returns a block that is not initialised: its entries are whatever
  the memory held. The parameter \<open>mem\<close> stands for these contents.
\<close>

definition np_empty :: "(nat \<Rightarrow> nat \<Rightarrow> real) \<Rightarrow> nat \<Rightarrow> nat \<Rightarrow> ndarray" where
  "np_empty mem n N = \<lparr>nrows = n, ncols = N, elem = mem\<rparr>"

subsection \<open>The store and the generator object\<close>

text \<open>
  The store holds the arrays that the generator or its consumer can reach; an address
  is a position in it and a new array goes to the end. \<open>data\<close> and
  \<open>principal_components\<close> are only read, so the generator keeps them as values.
\<close>

type_synonym addr = nat
type_synonym heap = "ndarray list"

text \<open>
  The local variables that are live at a \<open>yield\<close> of the loop (\<open>n\<close>, \<open>N\<close>, \<open>C\<close>, \<open>M\<close>,
  \<open>iteration\<close>, \<open>A\<close> and \<open>B\<close> are not read again).
\<close>

record frame =
  fr_data :: ndarray
  fr_pc :: ndarray
  fr_by_n :: int
  fr_c :: nat
  fr_L :: addr
  fr_m :: int

datatype gen =
    Created ndarray ndarray int
  | InLoop frame
  | AtLast
  | Closed

datatype outcome = Yield addr int | StopIteration | Raise error

text \<open>
  The body from the test of the \<open>while\<close> on: one more block added into \<open>L\<close> in place and
  \<open>L\<close> itself yielded with the old \<open>m\<close>, or the last \<open>yield\<close>, of a new array \<open>L + ...\<close>
  with \<open>m\<close>.
\<close>

definition loop_from :: "heap \<Rightarrow> frame \<Rightarrow> outcome \<times> heap \<times> gen" where
  "loop_from h fr =
     (let m = fr_m fr; by_n = fr_by_n fr; c = int (fr_c fr); L = fr_L fr in
      if m + by_n < c then
        (case np_dot (cols (fr_data fr) m (m + by_n)) (rows (fr_pc fr) m (m + by_n)) of
           Inl e \<Rightarrow> (Raise e, h, Closed)
         | Inr P \<Rightarrow>
             (Yield L m, h[L := np_add (h ! L) P], InLoop (fr\<lparr>fr_m := m + by_n\<rparr>)))
      else
        (case np_dot (cols (fr_data fr) m c) (rows (fr_pc fr) m c) of
           Inl e \<Rightarrow> (Raise e, h, Closed)
         | Inr P \<Rightarrow> (Yield (length h) m, h @ [np_add (h ! L) P], AtLast)))"

text \<open>The call: a generator object that has not started.\<close>

definition data_reconstruction :: "ndarray \<Rightarrow> ndarray \<Rightarrow> int \<Rightarrow> gen" where
  "data_reconstruction data principal_components by_n = Created data principal_components by_n"

text \<open>
  \<open>next(g)\<close>: the outcome, the store and the generator afterwards. A generator that has
  returned or raised is closed, and \<open>next\<close> on it raises \<open>StopIteration\<close>.
\<close>

fun py_next :: "(nat \<Rightarrow> nat \<Rightarrow> real) \<Rightarrow> heap \<Rightarrow> gen \<Rightarrow> outcome \<times> heap \<times> gen" where
  "py_next mem h (Created data pc by_n) =
     (let n = nrows data; c = ncols data; C = nrows pc; N = ncols pc in
      case py_floordiv (int c) by_n of
        Inl e \<Rightarrow> (Raise e, h, Closed)
      | Inr M \<Rightarrow>
          if C \<noteq> c then (Raise AssertionError, h, Closed)
          else loop_from (h @ [np_empty mem n N])
                 \<lparr>fr_data = data, fr_pc = pc, fr_by_n = by_n, fr_c = c,
                  fr_L = length h, fr_m = 0\<rparr>)"
| "py_next mem h (InLoop fr) = loop_from h fr"
| "py_next mem h AtLast = (StopIteration, h, Closed)"
| "py_next mem h Closed = (StopIteration, h, Closed)"

text \<open>
  A consumer that asks for \<open>k\<close> elements one after the other: each outcome with the
  store right after it.
\<close>

fun pulls :: "nat \<Rightarrow> (nat \<Rightarrow> nat \<Rightarrow> real) \<Rightarrow> heap \<Rightarrow> gen \<Rightarrow> (outcome \<times> heap) list" where
  "pulls 0 mem h g = []"
| "pulls (Suc k) mem h g =
     (case py_next mem h g of (out, h', g') \<Rightarrow> (out, h') # pulls k mem h' g')"

text \<open>What the consumer sees when an element arrives: the array as it is then, and the integer.\<close>

fun seen :: "outcome \<times> heap \<Rightarrow> (real list list \<times> int) option" where
  "seen (Yield p i, h) = Some (to_lists (h ! p), i)"
| "seen (StopIteration, h) = None"
| "seen (Raise e, h) = None"

text \<open>The same array as a value, and the parts of an outcome.\<close>

fun delivered :: "outcome \<times> heap \<Rightarrow> ndarray option" where
  "delivered (Yield p i, h) = Some (h ! p)"
| "delivered (StopIteration, h) = None"
| "delivered (Raise e, h) = None"

fun is_yield :: "outcome \<Rightarrow> bool" where
  "is_yield (Yield p i) = True"
| "is_yield StopIteration = False"
| "is_yield (Raise e) = False"

fun yielded_int :: "outcome \<Rightarrow> int option" where
  "yielded_int (Yield p i) = Some i"
| "yielded_int StopIteration = None"
| "yielded_int (Raise e) = None"

fun yielded_addr :: "outcome \<Rightarrow> addr option" where
  "yielded_addr (Yield p i) = Some p"
| "yielded_addr StopIteration = None"
| "yielded_addr (Raise e) = None"

text \<open>Whether any of the body has run.\<close>

fun started :: "gen \<Rightarrow> bool" where
  "started (Created d p b) = False"
| "started (InLoop fr) = True"
| "started AtLast = True"
| "started Closed = True"

subsection \<open>What the accumulator holds\<close>

text \<open>
  The block that \<open>np.empty\<close> returned plus the product of the first \<open>k\<close> columns of
  \<open>data\<close> with the first \<open>k\<close> rows of \<open>principal_components\<close>.
\<close>

definition acc_upto :: "(nat \<Rightarrow> nat \<Rightarrow> real) \<Rightarrow> ndarray \<Rightarrow> ndarray \<Rightarrow> nat \<Rightarrow> ndarray" where
  "acc_upto mem data pc k =
     \<lparr>nrows = nrows data, ncols = ncols pc,
      elem = (\<lambda>i j. mem i j + sum_list (map (\<lambda>q. elem data i q * elem pc q j) [0..<k]))\<rparr>"

text \<open>The outer product of column \<open>q\<close> of \<open>data\<close> with row \<open>q\<close> of \<open>principal_components\<close>.\<close>

definition outer_at :: "ndarray \<Rightarrow> ndarray \<Rightarrow> nat \<Rightarrow> ndarray" where
  "outer_at data pc q =
     \<lparr>nrows = nrows data, ncols = ncols pc, elem = (\<lambda>i j. elem data i q * elem pc q j)\<rparr>"

text \<open>The frame of a generator suspended in the loop, with \<open>L\<close> at address \<open>L\<close> and offset \<open>m\<close>.\<close>

definition frame_at :: "ndarray \<Rightarrow> ndarray \<Rightarrow> int \<Rightarrow> addr \<Rightarrow> int \<Rightarrow> frame" where
  "frame_at data pc by_n L m =
     \<lparr>fr_data = data, fr_pc = pc, fr_by_n = by_n, fr_c = ncols data, fr_L = L, fr_m = m\<rparr>"

text \<open>
  For a block size \<open>b \<ge> 1\<close> and a store \<open>h\<close> at the first request: the outcome of the
  loop's \<open>j\<close>-th \<open>yield\<close> (from 0) with the store after it, and the store after the last
  \<open>yield\<close> when the loop has run \<open>r\<close> times.
\<close>

definition loop_yield ::
  "(nat \<Rightarrow> nat \<Rightarrow> real) \<Rightarrow> heap \<Rightarrow> ndarray \<Rightarrow> ndarray \<Rightarrow> nat \<Rightarrow> nat \<Rightarrow> outcome \<times> heap" where
  "loop_yield mem h data pc b j =
     (Yield (length h) (int (j * b)), h @ [acc_upto mem data pc ((j + 1) * b)])"

definition last_heap ::
  "(nat \<Rightarrow> nat \<Rightarrow> real) \<Rightarrow> heap \<Rightarrow> ndarray \<Rightarrow> ndarray \<Rightarrow> nat \<Rightarrow> nat \<Rightarrow> heap" where
  "last_heap mem h data pc b r =
     h @ [acc_upto mem data pc (r * b), acc_upto mem data pc (ncols data)]"

text \<open>The number of elements the specification gives: \<open>c / by_n\<close> rounded up.\<close>

definition ceil_div :: "nat \<Rightarrow> int \<Rightarrow> nat" where
  "ceil_div c by_n = nat \<lceil>real c / real_of_int by_n\<rceil>"

subsection \<open>Slices and blocks\<close>

lemma slice_index_nat: "k \<le> len \<Longrightarrow> slice_index (int k) len = k"
  by (simp add: slice_index_def)

lemma dims_match: "nrows pc = ncols data \<Longrightarrow> ncols (cols data a b) = nrows (rows pc a b)"
  by (simp add: cols_def rows_def Let_def)

lemma dot_block:
  assumes "nrows pc = ncols data" "k + b \<le> ncols data"
  shows "np_dot (cols data (int k) (int k + int b)) (rows pc (int k) (int k + int b)) =
         Inr \<lparr>nrows = nrows data, ncols = ncols pc,
              elem = (\<lambda>i j. sum_list (map (\<lambda>q. elem data i (k + q) * elem pc (k + q) j) [0..<b]))\<rparr>"
proof -
  have 1: "slice_index (int k) (ncols data) = k" using assms by (simp add: slice_index_nat)
  have 2: "slice_index (int k + int b) (ncols data) = k + b"
    using assms slice_index_nat[of "k + b" "ncols data"] by simp
  show ?thesis using assms by (simp add: np_dot_def cols_def rows_def Let_def 1 2)
qed

lemma sum_list_block:
  fixes f :: "nat \<Rightarrow> real"
  shows "sum_list (map f [0..<k]) + sum_list (map (\<lambda>q. f (k + q)) [0..<b]) = sum_list (map f [0..<k + b])"
proof -
  have "map (\<lambda>q. f (k + q)) [0..<b] = map f (map (\<lambda>q. q + k) [0..<b])"
    by (simp add: add.commute)
  then have "map (\<lambda>q. f (k + q)) [0..<b] = map f [k..<k + b]"
    by (simp only: map_add_upt add.commute)
  moreover have "[0..<k + b] = [0..<k] @ [k..<k + b]"
    using upt_add_eq_append[of 0 k b] by simp
  ultimately show ?thesis by simp
qed

lemma add_block:
  "np_add (acc_upto mem data pc k)
     \<lparr>nrows = nrows data, ncols = ncols pc,
      elem = (\<lambda>i j. sum_list (map (\<lambda>q. elem data i (k + q) * elem pc (k + q) j) [0..<b]))\<rparr>
   = acc_upto mem data pc (k + b)"
proof -
  have "\<And>i j. sum_list (map (\<lambda>q. elem data i q * elem pc q j) [0..<k]) +
        sum_list (map (\<lambda>q. elem data i (k + q) * elem pc (k + q) j) [0..<b]) =
        sum_list (map (\<lambda>q. elem data i q * elem pc q j) [0..<k + b])"
    by (rule sum_list_block)
  then show ?thesis by (simp add: np_add_def acc_upto_def add.assoc)
qed

lemma acc_upto_0: "acc_upto mem data pc 0 = np_empty mem (nrows data) (ncols pc)"
  by (simp add: acc_upto_def np_empty_def)

subsection \<open>One step of the loop\<close>

lemma loop_step:
  assumes "nrows pc = ncols data" "k + b < ncols data"
  shows "loop_from (h @ [acc_upto mem data pc k]) (frame_at data pc (int b) (length h) (int k)) =
         (Yield (length h) (int k), h @ [acc_upto mem data pc (k + b)],
          InLoop (frame_at data pc (int b) (length h) (int (k + b))))"
proof -
  have le: "k + b \<le> ncols data" using assms by simp
  have lt: "int k + int b < int (ncols data)" using assms by linarith
  show ?thesis
    using lt by (simp add: loop_from_def frame_at_def Let_def dot_block[OF assms(1) le] add_block)
qed

lemma last_step:
  assumes "nrows pc = ncols data" "k \<le> ncols data" "ncols data \<le> k + b"
  shows "loop_from (h @ [acc_upto mem data pc k]) (frame_at data pc (int b) (length h) (int k)) =
         (Yield (Suc (length h)) (int k),
          h @ [acc_upto mem data pc k, acc_upto mem data pc (ncols data)], AtLast)"
proof -
  obtain d where d: "ncols data = k + d" using assms(2) le_Suc_ex by blast
  have ge: "\<not> int k + int b < int (ncols data)" using assms by linarith
  have le: "k + d \<le> ncols data" using d by simp
  show ?thesis
    using ge by (simp add: loop_from_def frame_at_def Let_def d dot_block[OF assms(1) le] add_block)
qed


subsection \<open>The whole sequence for a block size of at least one\<close>

lemma pulls_loop:
  assumes "nrows pc = ncols data" "(j + r) * b < ncols data" "ncols data \<le> (j + r) * b + b"
  shows "pulls (r + 2) mem (h @ [acc_upto mem data pc (j * b)])
           (InLoop (frame_at data pc (int b) (length h) (int (j * b)))) =
         map (loop_yield mem h data pc b) [j..<j + r] @
         [(Yield (Suc (length h)) (int ((j + r) * b)), last_heap mem h data pc b (j + r)),
          (StopIteration, last_heap mem h data pc b (j + r))]"
  using assms
proof (induction r arbitrary: j)
  case 0
  then have "j * b \<le> ncols data" "ncols data \<le> j * b + b" by simp_all
  from last_step[OF assms(1) this] show ?case
    by (simp add: last_heap_def)
next
  case (Suc r)
  have "j * b + b \<le> (j + Suc r) * b" by (simp add: algebra_simps)
  with Suc.prems have lt: "j * b + b < ncols data" by linarith
  have eq: "j * b + b = Suc j * b" by simp
  have prem1: "(Suc j + r) * b < ncols data" using Suc.prems by simp
  have prem2: "ncols data \<le> (Suc j + r) * b + b" using Suc.prems by simp
  have ih: "pulls (r + 2) mem (h @ [acc_upto mem data pc (Suc j * b)])
           (InLoop (frame_at data pc (int b) (length h) (int (Suc j * b)))) =
         map (loop_yield mem h data pc b) [Suc j..<Suc j + r] @
         [(Yield (Suc (length h)) (int ((Suc j + r) * b)), last_heap mem h data pc b (Suc j + r)),
          (StopIteration, last_heap mem h data pc b (Suc j + r))]"
    using Suc.IH[OF assms(1) prem1 prem2] .
  have upt: "[j..<j + Suc r] = j # [Suc j..<Suc j + r]"
    by (simp add: upt_conv_Cons)
  have "pulls (Suc r + 2) mem (h @ [acc_upto mem data pc (j * b)])
           (InLoop (frame_at data pc (int b) (length h) (int (j * b)))) =
        loop_yield mem h data pc b j #
        pulls (r + 2) mem (h @ [acc_upto mem data pc (Suc j * b)])
           (InLoop (frame_at data pc (int b) (length h) (int (Suc j * b))))"
    using loop_step[OF assms(1) lt, of h mem] by (simp add: loop_yield_def eq del: mult_Suc)
  then show ?case
    by (simp only: ih upt) simp
qed

lemma pulls_created:
  assumes "nrows pc = ncols data" "by_n \<noteq> 0"
  shows "pulls (Suc k) mem h (data_reconstruction data pc by_n) =
         pulls (Suc k) mem (h @ [acc_upto mem data pc 0])
           (InLoop (frame_at data pc by_n (length h) 0))"
  using assms
  by (simp add: data_reconstruction_def py_floordiv_def acc_upto_0 frame_at_def)

lemma blocks_bound:
  fixes c b :: nat
  assumes "0 < c" "0 < b"
  shows "((c - 1) div b) * b < c" "c \<le> ((c - 1) div b) * b + b"
proof -
  have "((c - 1) div b) * b \<le> c - 1" by simp
  then show "((c - 1) div b) * b < c" using assms by linarith
  have "c - 1 < ((c - 1) div b) * b + b"
    using assms(2) by (metis add.commute dividend_less_div_times)
  then show "c \<le> ((c - 1) div b) * b + b" by linarith
qed

lemma trace:
  assumes "nrows pc = ncols data" "0 < ncols data" "0 < b"
  shows "pulls ((ncols data - 1) div b + 2) mem h (data_reconstruction data pc (int b)) =
         map (loop_yield mem h data pc b) [0..<(ncols data - 1) div b] @
         [(Yield (Suc (length h)) (int (((ncols data - 1) div b) * b)),
           last_heap mem h data pc b ((ncols data - 1) div b)),
          (StopIteration, last_heap mem h data pc b ((ncols data - 1) div b))]"
proof -
  have nz: "int b \<noteq> 0" using assms by simp
  show ?thesis
    using pulls_created[OF assms(1) nz, of "(ncols data - 1) div b + 1" mem h]
      pulls_loop[OF assms(1), of 0 "(ncols data - 1) div b" b mem h]
      blocks_bound[OF assms(2,3)]
    by simp
qed

lemma ceil_blocks:
  fixes c b :: nat
  assumes "0 < c" "0 < b"
  shows "nat \<lceil>real c / real_of_int (int b)\<rceil> = (c - 1) div b + 1"
proof -
  let ?q = "(c - 1) div b"
  have lo: "?q * b < c" and hi: "c \<le> ?q * b + b"
    using blocks_bound[OF assms] by simp_all
  have bpos: "0 < real b" using assms by simp
  have "real (?q * b) < real c" using lo by (simp only: of_nat_less_iff)
  then have 1: "real_of_int (int ?q) < real c / real b"
    using bpos by (simp add: pos_less_divide_eq)
  have "real c \<le> real (?q * b + b)" using hi by (simp only: of_nat_le_iff)
  then have 2: "real c / real b \<le> real_of_int (int ?q) + 1"
    using bpos by (simp add: pos_divide_le_eq algebra_simps)
  have "\<lceil>real c / real b\<rceil> = int ?q + 1"
    using 1 2 by (rule ceiling_eq)
  then show ?thesis by simp
qed

lemma tail_size:
  fixes c b :: nat
  assumes "0 < c" "0 < b"
  shows "int c - int (((c - 1) div b) * b) = (if int c mod int b = 0 then int b else int c mod int b)"
proof -
  define q where "q = (c - 1) div b"
  define r where "r = (c - 1) mod b"
  have "c - 1 = q * b + r" by (simp add: q_def r_def)
  then have c: "c = q * b + (r + 1)" using assms by linarith
  have r: "r < b" using assms by (simp add: r_def)
  have nat_form: "c - q * b = (if c mod b = 0 then b else c mod b)"
  proof (cases "r + 1 = b")
    case True
    then have "c = (q + 1) * b" using c by simp
    then have "c mod b = 0" by (metis mod_mult_self2_is_0)
    moreover have "c - q * b = b" using c True by linarith
    ultimately show ?thesis using assms by simp
  next
    case False
    then have lt: "r + 1 < b" using r by linarith
    have "c mod b = (r + 1) mod b" unfolding c by (metis mod_mult_self3)
    then have "c mod b = r + 1" using lt by simp
    moreover have "c - q * b = r + 1" using c by linarith
    ultimately show ?thesis by simp
  qed
  have le: "q * b \<le> c" using c by linarith
  have "int c - int (q * b) = int (c - q * b)" using le by (rule of_nat_diff[symmetric])
  also have "\<dots> = int (if c mod b = 0 then b else c mod b)" by (simp only: nat_form)
  also have "\<dots> = (if int c mod int b = 0 then int b else int c mod int b)"
  proof -
    have "int c mod int b = int (c mod b)" by (simp only: zmod_int)
    then show ?thesis by (cases "c mod b = 0") simp_all
  qed
  finally show ?thesis by (simp only: q_def)
qed

subsection \<open>Failures and a generator that is closed\<close>

lemma pulls_closed: "pulls k mem h Closed = replicate k (StopIteration, h)"
  by (induction k) simp_all

text \<open>
  C4, as amended. With a block size of 0 the first request for an element fails with the
  \<open>ZeroDivisionError\<close> of \<open>c // by_n\<close>, whatever the shapes: the store is as before
  (no accumulator has been allocated), nothing is yielded, and every later request finds
  the generator exhausted.
\<close>

theorem zero_block_size_raises:
  "pulls (Suc k) mem h (data_reconstruction data pc 0) =
   (Raise ZeroDivisionError, h) # replicate k (StopIteration, h)"
  by (simp add: data_reconstruction_def py_floordiv_def pulls_closed)

text \<open>
  C4 as stated fails for a negative block size: nothing checks \<open>by_n\<close>, and with
  \<open>by_n = -1\<close> the first request yields an array (here \<open>data[:, 0:-1]\<close> times
  \<open>principal_components[0:-1, :]\<close>) instead of failing.
\<close>

theorem negative_block_size_counterexample:
  "map seen (pulls 1 (\<lambda>i j. 0) [] (data_reconstruction (of_rows [[1, 2]]) (of_rows [[3], [4]]) (- 1))) =
   [Some ([[3]], 0)]"
  by code_simp

text \<open>
  C5, as amended. When the number of rows of \<open>principal_components\<close> differs from the
  number of columns of \<open>data\<close> and the block size is not 0, the first request for an
  element fails with the \<open>AssertionError\<close> of \<open>assert C==c\<close>: the store is as before,
  nothing is yielded, and every later request finds the generator exhausted.
\<close>

theorem shape_mismatch_raises:
  assumes "nrows pc \<noteq> ncols data" "by_n \<noteq> 0"
  shows "pulls (Suc k) mem h (data_reconstruction data pc by_n) =
         (Raise AssertionError, h) # replicate k (StopIteration, h)"
  using assms by (simp add: data_reconstruction_def py_floordiv_def pulls_closed)

theorem shape_mismatch_raises_witness:
  "nrows (of_rows [[1, 0], [0, 1], [1, 1], [2, 2]]) \<noteq> ncols (of_rows [[1, 0, 2], [0, 1, 1]]) \<and>
   (1::int) \<noteq> 0 \<and>
   pulls (Suc 2) (\<lambda>i j. 0) [] (data_reconstruction (of_rows [[1, 0, 2], [0, 1, 1]])
      (of_rows [[1, 0], [0, 1], [1, 1], [2, 2]]) 1) =
   [(Raise AssertionError, []), (StopIteration, []), (StopIteration, [])]"
  using shape_mismatch_raises[of "of_rows [[1, 0], [0, 1], [1, 1], [2, 2]]" "of_rows [[1, 0, 2], [0, 1, 1]]" 1 2 "\<lambda>i j. 0" "[]"]
  by (simp add: of_rows_def eval_nat_numeral)

text \<open>
  C5 as stated fails for a block size of 0: \<open>M=c//by_n\<close> comes before the assertion, so
  with mismatched shapes the failure is the \<open>ZeroDivisionError\<close>, not the assertion.
\<close>

theorem shape_mismatch_zero_block_counterexample:
  "nrows (of_rows [[1, 0], [0, 1], [1, 1], [2, 2]]) \<noteq> ncols (of_rows [[1, 0, 2], [0, 1, 1]]) \<and>
   map fst (pulls 2 (\<lambda>i j. 0) [] (data_reconstruction (of_rows [[1, 0, 2], [0, 1, 1]])
      (of_rows [[1, 0], [0, 1], [1, 1], [2, 2]]) 0)) =
   [Raise ZeroDivisionError, StopIteration] \<and> ZeroDivisionError \<noteq> AssertionError"
  by (simp add: of_rows_def data_reconstruction_def py_floordiv_def eval_nat_numeral)

text \<open>
  C9. The call returns a generator of which no statement has run, whatever the
  arguments. The checks run at the first request for an element, the division first: a
  block size of 0 gives \<open>ZeroDivisionError\<close> there (also when the shapes differ), and
  with another block size mismatched shapes give \<open>AssertionError\<close> there.
\<close>

theorem validation_at_first_request:
  "\<not> started (data_reconstruction data pc by_n) \<and>
   (by_n = 0 \<longrightarrow>
      py_next mem h (data_reconstruction data pc by_n) = (Raise ZeroDivisionError, h, Closed)) \<and>
   (by_n \<noteq> 0 \<and> nrows pc \<noteq> ncols data \<longrightarrow>
      py_next mem h (data_reconstruction data pc by_n) = (Raise AssertionError, h, Closed))"
  by (simp add: data_reconstruction_def py_floordiv_def)

theorem validation_at_first_request_witness:
  "\<not> started (data_reconstruction (of_rows [[1, 0, 2]]) (of_rows [[1], [2]]) 0) \<and>
   py_next (\<lambda>i j. 0) [] (data_reconstruction (of_rows [[1, 0, 2]]) (of_rows [[1], [2]]) 0) =
     (Raise ZeroDivisionError, [], Closed) \<and>
   (2::int) \<noteq> 0 \<and> nrows (of_rows [[1], [2]]) \<noteq> ncols (of_rows [[1, 0, 2]]) \<and>
   py_next (\<lambda>i j. 0) [] (data_reconstruction (of_rows [[1, 0, 2]]) (of_rows [[1], [2]]) 2) =
     (Raise AssertionError, [], Closed)"
  using validation_at_first_request[of "of_rows [[1, 0, 2]]" "of_rows [[1], [2]]" 0 "\<lambda>i j. 0" "[]"]
    validation_at_first_request[of "of_rows [[1, 0, 2]]" "of_rows [[1], [2]]" 2 "\<lambda>i j. 0" "[]"]
  by (simp add: of_rows_def)

subsection \<open>A negative block size\<close>

lemma neg_loop_step:
  assumes "nrows pc = ncols data" "by_n < 0" "m \<le> 0"
  shows "\<exists>h'. loop_from h (frame_at data pc by_n L m) =
           (Yield L m, h', InLoop (frame_at data pc by_n L (m + by_n)))"
proof -
  have "m + by_n < int (ncols data)" using assms by linarith
  then show ?thesis
    using dims_match[OF assms(1)]
    by (simp add: loop_from_def frame_at_def Let_def np_dot_def)
qed

lemma neg_pulls:
  assumes "nrows pc = ncols data" "by_n < 0" "m \<le> 0"
  shows "map fst (pulls k mem h (InLoop (frame_at data pc by_n L m))) =
         map (\<lambda>j. Yield L (m + int j * by_n)) [0..<k]"
  using assms(3)
proof (induction k arbitrary: h m)
  case 0
  show ?case by simp
next
  case (Suc k)
  obtain h' where step: "loop_from h (frame_at data pc by_n L m) =
      (Yield L m, h', InLoop (frame_at data pc by_n L (m + by_n)))"
    using neg_loop_step[OF assms(1,2) Suc.prems] by blast
  have m': "m + by_n \<le> 0" using assms(2) Suc.prems by linarith
  have upt: "[0..<Suc k] = 0 # map Suc [0..<k]"
    by (simp only: map_Suc_upt upt_conv_Cons[of 0 "Suc k"] zero_less_Suc if_True)
  have "map fst (pulls (Suc k) mem h (InLoop (frame_at data pc by_n L m))) =
        Yield L m # map (\<lambda>j. Yield L (m + by_n + int j * by_n)) [0..<k]"
    using step Suc.IH[OF m'] by simp
  also have "\<dots> = map (\<lambda>j. Yield L (m + int j * by_n)) [0..<Suc k]"
    unfolding upt by (simp add: algebra_simps)
  finally show ?case .
qed

text \<open>
  C10. With matching shapes and a block size \<open>by_n \<le> -1\<close> the generator is never
  exhausted and never raises: for every \<open>k\<close>, the first \<open>k\<close> requests all yield, the
  \<open>j\<close>-th (from 0) the accumulator \<open>L\<close> with the integer \<open>j * by_n\<close>, since \<open>m\<close> only
  decreases and \<open>m+by_n<c\<close> stays true.
\<close>

theorem negative_block_size_never_exhausted:
  assumes "nrows pc = ncols data" "by_n \<le> - 1"
  shows "map fst (pulls k mem h (data_reconstruction data pc by_n)) =
         map (\<lambda>j. Yield (length h) (int j * by_n)) [0..<k]"
proof (cases k)
  case 0
  then show ?thesis by simp
next
  case (Suc k')
  have neg: "by_n < 0" and nz: "by_n \<noteq> 0" using assms(2) by simp_all
  show ?thesis
    unfolding Suc pulls_created[OF assms(1) nz]
    using neg_pulls[OF assms(1) neg, of 0 "Suc k'" mem _ "length h"] by simp
qed

theorem negative_block_size_never_exhausted_witness:
  "nrows (of_rows [[3], [4]]) = ncols (of_rows [[1, 2]]) \<and> (- 2 :: int) \<le> - 1 \<and>
   map fst (pulls 4 (\<lambda>i j. 0) [] (data_reconstruction (of_rows [[1, 2]]) (of_rows [[3], [4]]) (- 2))) =
   [Yield 0 0, Yield 0 (- 2), Yield 0 (- 4), Yield 0 (- 6)]"
  using negative_block_size_never_exhausted[of "of_rows [[3], [4]]" "of_rows [[1, 2]]" "- 2" 4 "\<lambda>i j. 0" "[]"]
  by (simp add: of_rows_def eval_nat_numeral)

subsection \<open>A block size of at least one: the elements and the exhaustion\<close>

lemma pulls_take: "take k (pulls (k + d) mem h g) = pulls k mem h g"
  by (induction k arbitrary: h g) (simp_all split: prod.splits)

lemma ceil_div_blocks:
  assumes "1 \<le> c" "1 \<le> by_n"
  shows "ceil_div c by_n = (c - 1) div nat by_n + 1"
proof -
  have "by_n = int (nat by_n)" using assms by simp
  then have "ceil_div c by_n = nat \<lceil>real c / real_of_int (int (nat by_n))\<rceil>"
    by (simp add: ceil_div_def)
  also have "\<dots> = (c - 1) div nat by_n + 1"
    using assms by (intro ceil_blocks) simp_all
  finally show ?thesis .
qed

lemma all_pulls:
  assumes "1 \<le> ncols data" "nrows pc = ncols data" "1 \<le> by_n"
  shows "pulls (ceil_div (ncols data) by_n + 1) mem h (data_reconstruction data pc by_n) =
         map (loop_yield mem h data pc (nat by_n)) [0..<ceil_div (ncols data) by_n - 1] @
         [(Yield (Suc (length h)) (int (ceil_div (ncols data) by_n - 1) * by_n),
           last_heap mem h data pc (nat by_n) (ceil_div (ncols data) by_n - 1)),
          (StopIteration, last_heap mem h data pc (nat by_n) (ceil_div (ncols data) by_n - 1))]"
proof -
  have b: "int (nat by_n) = by_n" "0 < nat by_n" using assms by simp_all
  have c: "0 < ncols data" using assms by simp
  show ?thesis
    using trace[OF assms(2) c b(2), of mem h] b(1)
    by (simp add: ceil_div_blocks[OF assms(1,3)])
qed

lemma yielding_pulls:
  assumes "1 \<le> ncols data" "nrows pc = ncols data" "1 \<le> by_n"
  shows "pulls (ceil_div (ncols data) by_n) mem h (data_reconstruction data pc by_n) =
         map (loop_yield mem h data pc (nat by_n)) [0..<ceil_div (ncols data) by_n - 1] @
         [(Yield (Suc (length h)) (int (ceil_div (ncols data) by_n - 1) * by_n),
           last_heap mem h data pc (nat by_n) (ceil_div (ncols data) by_n - 1))]"
proof -
  have pos: "0 < ceil_div (ncols data) by_n"
    by (simp add: ceil_div_blocks[OF assms(1,3)])
  have "pulls (ceil_div (ncols data) by_n) mem h (data_reconstruction data pc by_n) =
        take (ceil_div (ncols data) by_n)
          (pulls (ceil_div (ncols data) by_n + 1) mem h (data_reconstruction data pc by_n))"
    by (simp only: pulls_take)
  also have "\<dots> = map (loop_yield mem h data pc (nat by_n)) [0..<ceil_div (ncols data) by_n - 1] @
         [(Yield (Suc (length h)) (int (ceil_div (ncols data) by_n - 1) * by_n),
           last_heap mem h data pc (nat by_n) (ceil_div (ncols data) by_n - 1))]"
    unfolding all_pulls[OF assms] using pos by simp
  finally show ?thesis .
qed

lemma blocks_before_end:
  assumes "1 \<le> c" "1 \<le> by_n"
  shows "0 < ceil_div c by_n" "(ceil_div c by_n - 1) * nat by_n < c"
    "c \<le> ceil_div c by_n * nat by_n"
proof -
  have b: "0 < nat by_n" and c: "0 < c" using assms by simp_all
  show "0 < ceil_div c by_n" by (simp add: ceil_div_blocks[OF assms])
  show "(ceil_div c by_n - 1) * nat by_n < c"
    using blocks_bound(1)[OF c b] by (simp add: ceil_div_blocks[OF assms])
  show "c \<le> ceil_div c by_n * nat by_n"
    using blocks_bound(2)[OF c b] by (simp add: ceil_div_blocks[OF assms])
qed

text \<open>
  C2. For \<open>data\<close> with \<open>c \<ge> 1\<close> columns, \<open>principal_components\<close> with \<open>c\<close> rows and a block
  size \<open>by_n \<ge> 1\<close>, the sequence is finite and has \<open>ceil(c / by_n)\<close> elements: that many
  requests all yield and the next one finds the generator exhausted. The last element
  starts at column \<open>c - t\<close>, where the tail \<open>t\<close> is \<open>c mod by_n\<close>, or \<open>by_n\<close> when \<open>by_n\<close>
  divides \<open>c\<close>.
\<close>

theorem yields_ceiling_many:
  assumes "1 \<le> ncols data" "nrows pc = ncols data" "1 \<le> by_n"
  shows "list_all is_yield
           (map fst (pulls (ceil_div (ncols data) by_n) mem h (data_reconstruction data pc by_n))) \<and>
         fst (pulls (ceil_div (ncols data) by_n + 1) mem h (data_reconstruction data pc by_n)
                ! ceil_div (ncols data) by_n) = StopIteration \<and>
         yielded_int
           (fst (pulls (ceil_div (ncols data) by_n) mem h (data_reconstruction data pc by_n)
                   ! (ceil_div (ncols data) by_n - 1))) =
         Some (int (ncols data) -
               (if int (ncols data) mod by_n = 0 then by_n else int (ncols data) mod by_n))"
proof -
  have pos: "0 < ceil_div (ncols data) by_n"
    by (simp add: ceil_div_blocks[OF assms(1,3)])
  have b: "int (nat by_n) = by_n" "0 < nat by_n" and c: "0 < ncols data" using assms by simp_all
  have tail: "int (ncols data) - int (ceil_div (ncols data) by_n - 1) * by_n =
        (if int (ncols data) mod by_n = 0 then by_n else int (ncols data) mod by_n)"
    using tail_size[OF c b(2)] b(1) by (simp add: ceil_div_blocks[OF assms(1,3)])
  have 1: "list_all is_yield
           (map fst (pulls (ceil_div (ncols data) by_n) mem h (data_reconstruction data pc by_n)))"
    unfolding yielding_pulls[OF assms] by (simp add: loop_yield_def list_all_iff)
  have 2: "fst (pulls (ceil_div (ncols data) by_n + 1) mem h (data_reconstruction data pc by_n)
                ! ceil_div (ncols data) by_n) = StopIteration"
    unfolding all_pulls[OF assms] using pos by (auto simp add: nth_append)
  have 3: "yielded_int
           (fst (pulls (ceil_div (ncols data) by_n) mem h (data_reconstruction data pc by_n)
                   ! (ceil_div (ncols data) by_n - 1))) =
         Some (int (ceil_div (ncols data) by_n - 1) * by_n)"
    unfolding yielding_pulls[OF assms] by (simp add: nth_append)
  from 1 2 3 tail show ?thesis by (simp add: algebra_simps)
qed

theorem yields_ceiling_many_witness:
  "1 \<le> ncols (of_rows [[1, 0, 2], [0, 1, 1]]) \<and>
   nrows (of_rows [[1, 0], [0, 1], [1, 1]]) = ncols (of_rows [[1, 0, 2], [0, 1, 1]]) \<and>
   (1::int) \<le> 2 \<and>
   ceil_div (ncols (of_rows [[1, 0, 2], [0, 1, 1]])) 2 = 2 \<and>
   list_all is_yield (map fst (pulls 2 (\<lambda>i j. 0) []
      (data_reconstruction (of_rows [[1, 0, 2], [0, 1, 1]]) (of_rows [[1, 0], [0, 1], [1, 1]]) 2))) \<and>
   fst (pulls 3 (\<lambda>i j. 0) []
      (data_reconstruction (of_rows [[1, 0, 2], [0, 1, 1]]) (of_rows [[1, 0], [0, 1], [1, 1]]) 2) ! 2) =
     StopIteration \<and>
   yielded_int (fst (pulls 2 (\<lambda>i j. 0) []
      (data_reconstruction (of_rows [[1, 0, 2], [0, 1, 1]]) (of_rows [[1, 0], [0, 1], [1, 1]]) 2) ! 1)) =
     Some 2"
proof -
  have h1: "1 \<le> ncols (of_rows [[1, 0, 2], [0, 1, 1]])" by (simp add: of_rows_def)
  have h2: "nrows (of_rows [[1, 0], [0, 1], [1, 1]]) = ncols (of_rows [[1, 0, 2], [0, 1, 1]])"
    by (simp add: of_rows_def)
  have h3: "(1::int) \<le> 2" by simp
  have n: "ceil_div (ncols (of_rows [[1, 0, 2], [0, 1, 1]])) 2 = 2"
    by (simp add: of_rows_def ceil_div_def)
  have c: "ncols (of_rows [[1, 0, 2], [0, 1, 1]]) = 3" by (simp add: of_rows_def)
  show ?thesis
    using yields_ceiling_many[OF h1 h2 h3, of "\<lambda>i j. 0" "[]", unfolded n] h1 h2 n
    by (simp add: c)
qed

text \<open>
  C3, as amended. For the same inputs, the integer that comes with the \<open>j\<close>-th element
  (from 0) is \<open>j * by_n\<close>: the number of columns consumed before the block of that
  element, which is the offset of the block's first column. The integer of the last
  element is below \<open>c\<close>.
\<close>

theorem yielded_integer_is_block_start:
  assumes "1 \<le> ncols data" "nrows pc = ncols data" "1 \<le> by_n"
  shows "map (yielded_int \<circ> fst)
           (pulls (ceil_div (ncols data) by_n) mem h (data_reconstruction data pc by_n)) =
         map (\<lambda>j. Some (int j * by_n)) [0..<ceil_div (ncols data) by_n] \<and>
         int (ceil_div (ncols data) by_n - 1) * by_n < int (ncols data)"
proof -
  have b: "int (nat by_n) = by_n" using assms by simp
  note bl = blocks_before_end[OF assms(1,3)]
  have upt: "[0..<ceil_div (ncols data) by_n] =
             [0..<ceil_div (ncols data) by_n - 1] @ [ceil_div (ncols data) by_n - 1]"
    using bl(1) by (metis Suc_pred' upt_Suc_append zero_le)
  have 1: "map (yielded_int \<circ> fst)
           (pulls (ceil_div (ncols data) by_n) mem h (data_reconstruction data pc by_n)) =
         map (\<lambda>j. Some (int j * by_n)) [0..<ceil_div (ncols data) by_n]"
    unfolding yielding_pulls[OF assms] using assms(3) by (subst upt) (simp add: loop_yield_def)
  have "int ((ceil_div (ncols data) by_n - 1) * nat by_n) < int (ncols data)"
    using bl(2) by (simp only: of_nat_less_iff)
  then have 2: "int (ceil_div (ncols data) by_n - 1) * by_n < int (ncols data)"
    using b by simp
  from 1 2 show ?thesis by simp
qed

theorem yielded_integer_is_block_start_witness:
  "1 \<le> ncols (of_rows [[1, 0, 2], [0, 1, 1]]) \<and>
   nrows (of_rows [[1, 0], [0, 1], [1, 1]]) = ncols (of_rows [[1, 0, 2], [0, 1, 1]]) \<and>
   (1::int) \<le> 2 \<and>
   map (yielded_int \<circ> fst) (pulls 2 (\<lambda>i j. 0) []
      (data_reconstruction (of_rows [[1, 0, 2], [0, 1, 1]]) (of_rows [[1, 0], [0, 1], [1, 1]]) 2)) =
     [Some 0, Some 2] \<and>
   (2::int) < int (ncols (of_rows [[1, 0, 2], [0, 1, 1]]))"
proof -
  have h1: "1 \<le> ncols (of_rows [[1, 0, 2], [0, 1, 1]])" by (simp add: of_rows_def)
  have h2: "nrows (of_rows [[1, 0], [0, 1], [1, 1]]) = ncols (of_rows [[1, 0, 2], [0, 1, 1]])"
    by (simp add: of_rows_def)
  have h3: "(1::int) \<le> 2" by simp
  have n: "ceil_div (ncols (of_rows [[1, 0, 2], [0, 1, 1]])) 2 = 2"
    by (simp add: of_rows_def ceil_div_def)
  have u: "[0..<2] = [0, Suc 0]" by (simp add: upt_rec)
  show ?thesis
    using yielded_integer_is_block_start[OF h1 h2 h3, of "\<lambda>i j. 0" "[]"] h1 h2
    by (simp add: n u)
qed

text \<open>
  C3 as stated fails on the scenario of the specification (3 columns, block size 1): the
  integers are 0, 1 and 2, so the first is not the one column consumed by then and the
  last is not \<open>c = 3\<close>.
\<close>

theorem final_integer_counterexample:
  "map (yielded_int \<circ> fst) (pulls 4 (\<lambda>i j. 0) []
      (data_reconstruction (of_rows [[1, 0, 2], [0, 1, 1]]) (of_rows [[1, 0], [0, 1], [1, 1]]) 1)) =
     [Some 0, Some 1, Some 2, None] \<and>
   int (ncols (of_rows [[1, 0, 2], [0, 1, 1]])) = 3"
  by code_simp

subsection \<open>What a consumer holds\<close>

text \<open>
  C6, as amended. For the same inputs, every element of the loop is the accumulator
  itself: the address yielded is always the one of \<open>L\<close>, and the store after the \<open>j\<close>-th
  request holds there the accumulator with \<open>(j + 1) * by_n\<close> columns folded in, so an
  element received earlier reads as the latest one. Only the last element is a new
  array, at a new address; the accumulator is left as it was before the last request.
\<close>

theorem loop_yields_the_accumulator_itself:
  assumes "1 \<le> ncols data" "nrows pc = ncols data" "1 \<le> by_n"
  shows "map (\<lambda>x. (yielded_addr (fst x), snd x))
           (pulls (ceil_div (ncols data) by_n) mem h (data_reconstruction data pc by_n)) =
         map (\<lambda>j. (Some (length h), h @ [acc_upto mem data pc ((j + 1) * nat by_n)]))
           [0..<ceil_div (ncols data) by_n - 1] @
         [(Some (Suc (length h)),
           h @ [acc_upto mem data pc ((ceil_div (ncols data) by_n - 1) * nat by_n),
                acc_upto mem data pc (ncols data)])]"
  unfolding yielding_pulls[OF assms] by (simp add: loop_yield_def last_heap_def)

theorem loop_yields_the_accumulator_itself_witness:
  "1 \<le> ncols (of_rows [[1, 0, 2], [0, 1, 1]]) \<and>
   nrows (of_rows [[1, 0], [0, 1], [1, 1]]) = ncols (of_rows [[1, 0, 2], [0, 1, 1]]) \<and>
   (1::int) \<le> 1 \<and>
   map (\<lambda>x. (yielded_addr (fst x), map to_lists (snd x))) (pulls 3 (\<lambda>i j. 0) []
      (data_reconstruction (of_rows [[1, 0, 2], [0, 1, 1]]) (of_rows [[1, 0], [0, 1], [1, 1]]) 1)) =
     [(Some 0, [[[1, 0], [0, 0]]]),
      (Some 0, [[[1, 0], [0, 1]]]),
      (Some 1, [[[1, 0], [0, 1]], [[3, 2], [1, 2]]])]"
proof -
  have h1: "1 \<le> ncols (of_rows [[1, 0, 2], [0, 1, 1]])" by (simp add: of_rows_def)
  have h2: "nrows (of_rows [[1, 0], [0, 1], [1, 1]]) = ncols (of_rows [[1, 0, 2], [0, 1, 1]])"
    by (simp add: of_rows_def)
  have h3: "(1::int) \<le> 1" by simp
  have n: "ceil_div (ncols (of_rows [[1, 0, 2], [0, 1, 1]])) 1 = 3"
    by (simp add: of_rows_def ceil_div_def)
  note w = loop_yields_the_accumulator_itself[OF h1 h2 h3, of "\<lambda>i j. 0" "[]", unfolded n]
  have "map (\<lambda>x. (yielded_addr (fst x), map to_lists (snd x))) (pulls 3 (\<lambda>i j. 0) []
      (data_reconstruction (of_rows [[1, 0, 2], [0, 1, 1]]) (of_rows [[1, 0], [0, 1], [1, 1]]) 1)) =
    map (map_prod id (map to_lists)) (map (\<lambda>x. (yielded_addr (fst x), snd x)) (pulls 3 (\<lambda>i j. 0) []
      (data_reconstruction (of_rows [[1, 0, 2], [0, 1, 1]]) (of_rows [[1, 0], [0, 1], [1, 1]]) 1)))"
    by (simp add: comp_def)
  also have "\<dots> = [(Some 0, [[[1, 0], [0, 0]]]),
      (Some 0, [[[1, 0], [0, 1]]]),
      (Some 1, [[[1, 0], [0, 1]], [[3, 2], [1, 2]]])]"
    unfolding w by code_simp
  finally show ?thesis using h1 h2 by simp
qed

text \<open>
  C6 as stated fails on the scenario of the specification: the first element is the
  array at address 0, which holds \<open>[[1,0],[0,0]]\<close> when it is yielded and \<open>[[1,0],[0,1]]\<close>
  once the second element has been computed.
\<close>

theorem earlier_snapshot_counterexample:
  "yielded_addr (fst (pulls 2 (\<lambda>i j. 0) []
      (data_reconstruction (of_rows [[1, 0, 2], [0, 1, 1]]) (of_rows [[1, 0], [0, 1], [1, 1]]) 1) ! 0)) =
     Some 0 \<and>
   to_lists (snd (pulls 2 (\<lambda>i j. 0) []
      (data_reconstruction (of_rows [[1, 0, 2], [0, 1, 1]]) (of_rows [[1, 0], [0, 1], [1, 1]]) 1) ! 0) ! 0) =
     [[1, 0], [0, 0]] \<and>
   to_lists (snd (pulls 2 (\<lambda>i j. 0) []
      (data_reconstruction (of_rows [[1, 0, 2], [0, 1, 1]]) (of_rows [[1, 0], [0, 1], [1, 1]]) 1) ! 1) ! 0) =
     [[1, 0], [0, 1]]"
  by code_simp

subsection \<open>The arrays delivered\<close>

lemma delivered_nth:
  assumes "1 \<le> ncols data" "nrows pc = ncols data" "1 \<le> by_n"
    and "j < ceil_div (ncols data) by_n"
  shows "delivered (pulls (ceil_div (ncols data) by_n) mem h (data_reconstruction data pc by_n) ! j) =
         Some (acc_upto mem data pc (min ((j + 1) * nat by_n) (ncols data)))"
proof (cases "j < ceil_div (ncols data) by_n - 1")
  case True
  note bl = blocks_before_end[OF assms(1,3)]
  have "(j + 1) * nat by_n \<le> (ceil_div (ncols data) by_n - 1) * nat by_n"
    using True by (intro mult_le_mono1) simp
  then have m: "min ((j + 1) * nat by_n) (ncols data) = (j + 1) * nat by_n"
    using bl(2) by linarith
  show ?thesis
    unfolding yielding_pulls[OF assms(1-3)] m using True
    by (simp add: nth_append loop_yield_def)
next
  case False
  then have j: "j = ceil_div (ncols data) by_n - 1" using assms(4) by simp
  note bl = blocks_before_end[OF assms(1,3)]
  have "(j + 1) * nat by_n = ceil_div (ncols data) by_n * nat by_n"
    using j bl(1) by simp
  then have m: "min ((j + 1) * nat by_n) (ncols data) = ncols data"
    using bl(3) by simp
  show ?thesis
    unfolding yielding_pulls[OF assms(1-3)] m
    by (simp add: nth_append j last_heap_def)
qed

lemma acc_upto_shape:
  "nrows (acc_upto mem data pc k) = nrows data" "ncols (acc_upto mem data pc k) = ncols pc"
  by (simp_all add: acc_upto_def)

lemma acc_upto_entry_Suc:
  "elem (acc_upto mem data pc (Suc k)) i j =
   elem (acc_upto mem data pc k) i j + elem data i k * elem pc k j"
  by (simp add: acc_upto_def)

lemma prefix_product:
  assumes "nrows pc = ncols data" "k \<le> ncols data"
  shows "\<exists>P. np_dot (cols data 0 (int k)) (rows pc 0 (int k)) = Inr P \<and>
             acc_upto mem data pc k = np_add (np_empty mem (nrows data) (ncols pc)) P"
proof -
  have le: "0 + k \<le> ncols data" using assms by simp
  show ?thesis
    using dot_block[OF assms(1) le] add_block[of mem data pc 0 k]
    by (simp add: acc_upto_0)
qed

lemma ceil_div_one: "ceil_div c 1 = c"
  by (simp add: ceil_div_def)

text \<open>
  C7, as amended. For \<open>data\<close> with \<open>c \<ge> 1\<close> columns, \<open>principal_components\<close> with \<open>c\<close> rows
  and block size 1 there are exactly \<open>c\<close> elements, each of the shape \<open>(n, N)\<close>, and each
  array, read when it is yielded, is the previous one as it read when it was yielded
  plus one outer product: entry \<open>(i, k)\<close> of element \<open>j + 1\<close> is entry \<open>(i, k)\<close> of element
  \<open>j\<close> plus \<open>data[i, j + 1] * principal_components[j + 1, k]\<close>.
\<close>

theorem block_size_one_rank_one_updates:
  assumes "1 \<le> ncols data" "nrows pc = ncols data"
  shows "list_all is_yield
           (map fst (pulls (ncols data) mem h (data_reconstruction data pc 1))) \<and>
         fst (pulls (ncols data + 1) mem h (data_reconstruction data pc 1) ! ncols data) =
           StopIteration \<and>
         (\<forall>j. j < ncols data \<longrightarrow>
            map_option (\<lambda>X. (nrows X, ncols X))
              (delivered (pulls (ncols data) mem h (data_reconstruction data pc 1) ! j)) =
            Some (nrows data, ncols pc)) \<and>
         (\<forall>j i k. Suc j < ncols data \<and> i < nrows data \<and> k < ncols pc \<longrightarrow>
            map_option (\<lambda>Y. elem Y i k)
              (delivered (pulls (ncols data) mem h (data_reconstruction data pc 1) ! Suc j)) =
            map_option (\<lambda>X. elem X i k + elem data i (Suc j) * elem pc (Suc j) k)
              (delivered (pulls (ncols data) mem h (data_reconstruction data pc 1) ! j)))"
proof -
  have one: "(1::int) \<le> 1" by simp
  have nth: "delivered (pulls (ncols data) mem h (data_reconstruction data pc 1) ! j) =
         Some (acc_upto mem data pc (Suc j))" if "j < ncols data" for j
    using delivered_nth[OF assms one, of j mem h] that by (simp add: ceil_div_one)
  have 1: "list_all is_yield
           (map fst (pulls (ncols data) mem h (data_reconstruction data pc 1)))"
    using yielding_pulls[OF assms one, of mem h]
    by (simp add: ceil_div_one loop_yield_def list_all_iff)
  have 2: "fst (pulls (ncols data + 1) mem h (data_reconstruction data pc 1) ! ncols data) =
           StopIteration"
    using all_pulls[OF assms one, of mem h] assms(1)
    by (auto simp add: ceil_div_one nth_append)
  have 3: "map_option (\<lambda>X. (nrows X, ncols X))
              (delivered (pulls (ncols data) mem h (data_reconstruction data pc 1) ! j)) =
            Some (nrows data, ncols pc)" if "j < ncols data" for j
    using nth[OF that] by (simp add: acc_upto_shape)
  have 4: "map_option (\<lambda>Y. elem Y i k)
              (delivered (pulls (ncols data) mem h (data_reconstruction data pc 1) ! Suc j)) =
            map_option (\<lambda>X. elem X i k + elem data i (Suc j) * elem pc (Suc j) k)
              (delivered (pulls (ncols data) mem h (data_reconstruction data pc 1) ! j))"
    if "Suc j < ncols data" for j i k
    using nth[of j] nth[of "Suc j"] that by (simp add: acc_upto_entry_Suc)
  from 1 2 3 4 show ?thesis by blast
qed

theorem block_size_one_rank_one_updates_witness:
  "1 \<le> ncols (of_rows [[1, 0, 2], [0, 1, 1]]) \<and>
   nrows (of_rows [[1, 0], [0, 1], [1, 1]]) = ncols (of_rows [[1, 0, 2], [0, 1, 1]]) \<and>
   Suc 0 < ncols (of_rows [[1, 0, 2], [0, 1, 1]]) \<and>
   1 < nrows (of_rows [[1, 0, 2], [0, 1, 1]]) \<and>
   1 < ncols (of_rows [[1, 0], [0, 1], [1, 1]]) \<and>
   fst (pulls (ncols (of_rows [[1, 0, 2], [0, 1, 1]]) + 1) (\<lambda>i j. 0) []
      (data_reconstruction (of_rows [[1, 0, 2], [0, 1, 1]]) (of_rows [[1, 0], [0, 1], [1, 1]]) 1)
        ! ncols (of_rows [[1, 0, 2], [0, 1, 1]])) = StopIteration \<and>
   map_option (\<lambda>Y. elem Y 1 1)
     (delivered (pulls (ncols (of_rows [[1, 0, 2], [0, 1, 1]])) (\<lambda>i j. 0) []
        (data_reconstruction (of_rows [[1, 0, 2], [0, 1, 1]]) (of_rows [[1, 0], [0, 1], [1, 1]]) 1)
          ! Suc 0)) =
   map_option
     (\<lambda>X. elem X 1 1 + elem (of_rows [[1, 0, 2], [0, 1, 1]]) 1 (Suc 0) *
                        elem (of_rows [[1, 0], [0, 1], [1, 1]]) (Suc 0) 1)
     (delivered (pulls (ncols (of_rows [[1, 0, 2], [0, 1, 1]])) (\<lambda>i j. 0) []
        (data_reconstruction (of_rows [[1, 0, 2], [0, 1, 1]]) (of_rows [[1, 0], [0, 1], [1, 1]]) 1)
          ! 0)) \<and>
   map_option (\<lambda>X. elem X 1 1)
     (delivered (pulls 3 (\<lambda>i j. 0) []
        (data_reconstruction (of_rows [[1, 0, 2], [0, 1, 1]]) (of_rows [[1, 0], [0, 1], [1, 1]]) 1)
          ! 0)) = Some 0 \<and>
   elem (of_rows [[1, 0, 2], [0, 1, 1]]) 1 (Suc 0) *
     elem (of_rows [[1, 0], [0, 1], [1, 1]]) (Suc 0) 1 = 1"
proof -
  have h1: "1 \<le> ncols (of_rows [[1, 0, 2], [0, 1, 1]])" by (simp add: of_rows_def)
  have h2: "nrows (of_rows [[1, 0], [0, 1], [1, 1]]) = ncols (of_rows [[1, 0, 2], [0, 1, 1]])"
    by (simp add: of_rows_def)
  have j: "Suc 0 < ncols (of_rows [[1, 0, 2], [0, 1, 1]])" by (simp add: of_rows_def)
  have i: "1 < nrows (of_rows [[1, 0, 2], [0, 1, 1]])" by (simp add: of_rows_def)
  have k: "1 < ncols (of_rows [[1, 0], [0, 1], [1, 1]])" by (simp add: of_rows_def)
  have v: "map_option (\<lambda>X. elem X 1 1)
     (delivered (pulls 3 (\<lambda>i j. 0) []
        (data_reconstruction (of_rows [[1, 0, 2], [0, 1, 1]]) (of_rows [[1, 0], [0, 1], [1, 1]]) 1)
          ! 0)) = Some 0"
    by code_simp
  have p: "elem (of_rows [[1, 0, 2], [0, 1, 1]]) 1 (Suc 0) *
     elem (of_rows [[1, 0], [0, 1], [1, 1]]) (Suc 0) 1 = 1"
    by (simp add: of_rows_def)
  show ?thesis
    using block_size_one_rank_one_updates[OF h1 h2, of "\<lambda>i j. 0" "[]"] h1 h2 j i k v p
    by blast
qed

text \<open>
  C7 as stated fails between elements of the loop, which are one array: on the scenario
  of the specification the first and the second element are both the array at address
  0, so once the second has been yielded they read the same, \<open>[[1,0],[0,1]]\<close>, and do not
  differ by the outer product of column 1 with row 1, which is \<open>[[0,0],[0,1]]\<close>.
\<close>

theorem same_array_counterexample:
  "yielded_addr (fst (pulls 2 (\<lambda>i j. 0) []
      (data_reconstruction (of_rows [[1, 0, 2], [0, 1, 1]]) (of_rows [[1, 0], [0, 1], [1, 1]]) 1) ! 0)) =
     Some 0 \<and>
   yielded_addr (fst (pulls 2 (\<lambda>i j. 0) []
      (data_reconstruction (of_rows [[1, 0, 2], [0, 1, 1]]) (of_rows [[1, 0], [0, 1], [1, 1]]) 1) ! 1)) =
     Some 0 \<and>
   to_lists (snd (pulls 2 (\<lambda>i j. 0) []
      (data_reconstruction (of_rows [[1, 0, 2], [0, 1, 1]]) (of_rows [[1, 0], [0, 1], [1, 1]]) 1) ! 1) ! 0) =
     [[1, 0], [0, 1]] \<and>
   to_lists (outer_at (of_rows [[1, 0, 2], [0, 1, 1]]) (of_rows [[1, 0], [0, 1], [1, 1]]) 1) =
     [[0, 0], [0, 1]]"
  by code_simp

text \<open>
  The array of every element, in general: the block of \<open>np.empty\<close> plus the product of
  the first \<open>k\<close> columns of \<open>data\<close> with the first \<open>k\<close> rows of \<open>principal_components\<close>,
  where \<open>k\<close> is the number of columns consumed.
\<close>

lemma delivered_is_block_plus_prefix_product:
  assumes "1 \<le> ncols data" "nrows pc = ncols data" "1 \<le> by_n"
    and "j < ceil_div (ncols data) by_n"
  shows "\<exists>P. np_dot (cols data 0 (int (min ((j + 1) * nat by_n) (ncols data))))
                   (rows pc 0 (int (min ((j + 1) * nat by_n) (ncols data)))) = Inr P \<and>
             delivered (pulls (ceil_div (ncols data) by_n) mem h
                          (data_reconstruction data pc by_n) ! j) =
             Some (np_add (np_empty mem (nrows data) (ncols pc)) P)"
  using prefix_product[OF assms(2), of "min ((j + 1) * nat by_n) (ncols data)" mem]
    delivered_nth[OF assms, of mem h]
  by auto

text \<open>
  C1 on the code. The accumulator is \<open>np.empty((n,N))\<close>, not zeros: in a block that
  holds 5, \<open>data = [[1,2]]\<close> and \<open>principal_components = [[3],[4]]\<close> with block size 1
  give \<open>[[8]]\<close> and \<open>[[16]]\<close>, while the products of the first column with the first row
  and of the whole matrices are \<open>[[3]]\<close> and \<open>[[11]]\<close>.
\<close>

theorem uninitialised_accumulator_shows:
  "map seen (pulls 3 (\<lambda>i j. 5) []
      (data_reconstruction (of_rows [[1, 2]]) (of_rows [[3], [4]]) 1)) =
     [Some ([[8]], 0), Some ([[16]], 1), None] \<and>
   map_sum id to_lists (np_dot (cols (of_rows [[1, 2]]) 0 1) (rows (of_rows [[3], [4]]) 0 1)) =
     Inr [[3]] \<and>
   map_sum id to_lists (np_dot (of_rows [[1, 2]]) (of_rows [[3], [4]])) = Inr [[11]]"
  by code_simp

text \<open>
  C8 on the code. The scenario of the specification gives three elements with the
  integers 0, 1 and 2; the arrays are those of the specification when the block of
  \<open>np.empty\<close> holds zeros, and are shifted by its contents otherwise (here 7).
\<close>

theorem spec_scenario_on_used_memory:
  "map seen (pulls 4 (\<lambda>i j. 7) []
      (data_reconstruction (of_rows [[1, 0, 2], [0, 1, 1]]) (of_rows [[1, 0], [0, 1], [1, 1]]) 1)) =
     [Some ([[8, 7], [7, 7]], 0), Some ([[8, 7], [7, 8]], 1), Some ([[10, 9], [8, 9]], 2), None] \<and>
   map seen (pulls 4 (\<lambda>i j. 0) []
      (data_reconstruction (of_rows [[1, 0, 2], [0, 1, 1]]) (of_rows [[1, 0], [0, 1], [1, 1]]) 1)) =
     [Some ([[1, 0], [0, 0]], 0), Some ([[1, 0], [0, 1]], 1), Some ([[3, 2], [1, 2]], 2), None]"
  by code_simp

end
